theory Spec2Isabelle
  imports Complex_Main
begin

section \<open>Time values\<close>

text \<open>
  The program works with timezone-aware \<^verbatim>\<open>datetime\<close> values of the system-local zone.
  The zone is taken to have one fixed UTC offset (no daylight-saving change inside the
  period looked at), so an aware local datetime is a point on the local time line and is
  represented by the number of microseconds (the resolution of \<^verbatim>\<open>datetime\<close>) since
  1970-01-01T00:00 local time. Comparison of datetimes is \<open><\<close> on these numbers and the
  difference of two datetimes (a \<^verbatim>\<open>timedelta\<close>) is their difference in microseconds.
  A \<^verbatim>\<open>date\<close> is the number of days since 1970-01-01, a \<^verbatim>\<open>time\<close> the number of microseconds
  since midnight. The range limit of Python's datetime (years 1 to 9999) is not modelled.
\<close>

type_synonym datetime = int
type_synonym date = int
type_synonym daytime = int

definition SECOND :: int where
  "SECOND = 1000000"

definition HOUR :: int where
  "HOUR = 3600 * SECOND"

definition DAY :: int where
  "DAY = 24 * HOUR"

text \<open>\<^verbatim>\<open>dt.date()\<close> and \<^verbatim>\<open>dt.time()\<close>.\<close>

definition date_of :: "datetime \<Rightarrow> date" where
  "date_of t = t div DAY"

definition time_of :: "datetime \<Rightarrow> daytime" where
  "time_of t = t mod DAY"

text \<open>\<^verbatim>\<open>datetime.time(hour=h)\<close>, \<^verbatim>\<open>datetime.timedelta(days=n)\<close> and
  \<^verbatim>\<open>datetime.datetime.combine(date=d, time=tm).astimezone()\<close>.\<close>

definition time_hour :: "int \<Rightarrow> daytime" where
  "time_hour h = h * HOUR"

definition timedelta_days :: "int \<Rightarrow> int" where
  "timedelta_days n = n * DAY"

definition combine :: "date \<Rightarrow> daytime \<Rightarrow> datetime" where
  "combine d tm = d * DAY + tm"

text \<open>\<^verbatim>\<open>dt.replace(year=d.year, month=d.month, day=d.day)\<close> for a date \<open>d\<close>: the date
  of \<open>dt\<close> is replaced, its time of day is kept.\<close>

definition replace_date :: "datetime \<Rightarrow> date \<Rightarrow> datetime" where
  "replace_date t d = combine d (time_of t)"

text \<open>\<^verbatim>\<open>datetime.datetime.fromtimestamp(e).astimezone()\<close>: the local datetime of the
  instant \<open>e\<close> (microseconds since the epoch, UTC) in a zone \<open>off\<close> microseconds ahead
  of UTC.\<close>

definition fromtimestamp :: "int \<Rightarrow> int \<Rightarrow> datetime" where
  "fromtimestamp off e = e + off"

section \<open>Data model\<close>

record location =
  lat :: real
  long :: real

record timeinfo =
  sunrise :: datetime
  sunset :: datetime
  next_1am :: datetime

text \<open>
  What the data provider answers to one GET. \<open>NoResponse\<close>: \<^verbatim>\<open>requests.get\<close> raised
  (no connection, timeout). The body is \<open>NotJson\<close> when \<^verbatim>\<open>json.loads\<close> raises,
  \<open>NoResults\<close> when \<^verbatim>\<open>body["results"]\<close> raises, and otherwise holds the values found
  under \<^verbatim>\<open>"sunrise"\<close> and \<^verbatim>\<open>"sunset"\<close> (\<open>None\<close>: the lookup raises). A value is
  \<open>Number e\<close> when \<^verbatim>\<open>float\<close> and \<^verbatim>\<open>fromtimestamp\<close> accept it and it denotes the
  instant \<open>e\<close> in microseconds since the epoch, \<open>Unconvertible\<close> when one of them raises.
\<close>

datatype jvalue = Unconvertible | Number int

datatype body = NotJson | NoResults | Results "jvalue option" "jvalue option"

datatype reply = NoResponse | Response int body

datatype exn = RequestException | AssertionError | JSONDecodeError | KeyError | ValueError

datatype level = INFO | WARNING | ERROR

datatype msg =
    Getting location date
  | FailedCall nat int exn
  | SleepingUntil datetime
  | Running bool
  | ExitedWith int
  | SunInfo "timeinfo option"
  | UsingDefault timeinfo
  | UnexpectedOrdering timeinfo

text \<open>The effects of the program that can be observed from outside, in the order in
  which they happen: log lines, GET requests, \<^verbatim>\<open>systemctl\<close> runs (\<open>True\<close> is
  \<^verbatim>\<open>start\<close>, \<open>False\<close> is \<^verbatim>\<open>stop\<close>) and sleeps (in microseconds).\<close>

datatype event =
    Log level msg
  | Get location date
  | Systemctl bool
  | Sleep int

text \<open>
  The world the program runs in. \<open>clock\<close> is the system time in microseconds since the
  epoch and \<open>utc_offset\<close> the offset of the local zone. \<open>provider k\<close> is the answer to
  the \<open>k\<close>-th GET and \<open>exit_codes k\<close> the return code of the \<open>k\<close>-th \<^verbatim>\<open>systemctl\<close>
  run; \<open>requests\<close> and \<open>runs\<close> count the GETs and runs made so far. The clock moves
  only in \<^verbatim>\<open>time.sleep\<close>, by the length slept: a request, a subprocess and a log line
  take no time.
\<close>

record world =
  clock :: int
  utc_offset :: int
  provider :: "nat \<Rightarrow> reply"
  requests :: nat
  exit_codes :: "nat \<Rightarrow> int"
  runs :: nat
  trace :: "event list"

text \<open>A computation that may raise: the exception or the value, and the world after it.\<close>

type_synonym ('a, 'z) io = "'z world_scheme \<Rightarrow> (exn + 'a) \<times> 'z world_scheme"

section \<open>Library calls\<close>

text \<open>\<^verbatim>\<open>datetime.datetime.now().astimezone()\<close>.\<close>

definition now :: "'z world_scheme \<Rightarrow> datetime" where
  "now w = fromtimestamp (utc_offset w) (clock w)"

text \<open>\<^verbatim>\<open>logging.info\<close>, \<^verbatim>\<open>logging.warning\<close>, \<^verbatim>\<open>logging.error\<close>.\<close>

definition logging :: "level \<Rightarrow> msg \<Rightarrow> 'z world_scheme \<Rightarrow> 'z world_scheme" where
  "logging l m w = w\<lparr>trace := trace w @ [Log l m]\<rparr>"

text \<open>\<^verbatim>\<open>time.sleep(d)\<close> raises ValueError for a negative length.\<close>

definition time_sleep :: "int \<Rightarrow> (unit, 'z) io" where
  "time_sleep d w =
     (if d < 0 then (Inl ValueError, w)
      else (Inr (), w\<lparr>clock := clock w + d, trace := trace w @ [Sleep d]\<rparr>))"

section \<open>The program\<close>

subsection \<open>TimeInfo\<close>

text \<open>\<^verbatim>\<open>TimeInfo.get_from_web\<close>.\<close>

definition get_from_web :: "location \<Rightarrow> (timeinfo, 'z) io" where
  "get_from_web loc w =
     (let today = date_of (now w);
          w1 = logging INFO (Getting loc today) w;
          response = provider w1 (requests w1);
          w2 = w1\<lparr>requests := Suc (requests w1), trace := trace w1 @ [Get loc today]\<rparr>
      in case response of
           NoResponse \<Rightarrow> (Inl RequestException, w2)
         | Response status_code content \<Rightarrow>
             if status_code \<noteq> 200 then (Inl AssertionError, w2)
             else (case content of
                 NotJson \<Rightarrow> (Inl JSONDecodeError, w2)
               | NoResults \<Rightarrow> (Inl KeyError, w2)
               | Results rs ss \<Rightarrow>
                   (case rs of
                      None \<Rightarrow> (Inl KeyError, w2)
                    | Some Unconvertible \<Rightarrow> (Inl ValueError, w2)
                    | Some (Number e1) \<Rightarrow>
                        (case ss of
                           None \<Rightarrow> (Inl KeyError, w2)
                         | Some Unconvertible \<Rightarrow> (Inl ValueError, w2)
                         | Some (Number e2) \<Rightarrow>
                             (Inr \<lparr>sunrise = replace_date (fromtimestamp (utc_offset w2) e1) today,
                                   sunset = replace_date (fromtimestamp (utc_offset w2) e2) today,
                                   next_1am = combine today (time_hour 1) + timedelta_days 1\<rparr>,
                              w2)))))"

text \<open>\<^verbatim>\<open>TimeInfo.default\<close>: it reads the clock and nothing else, and has no way to raise.\<close>

definition default_TimeInfo :: "'z world_scheme \<Rightarrow> timeinfo" where
  "default_TimeInfo w =
     (let today = date_of (now w)
      in \<lparr>sunrise = combine today (time_hour 6),
          sunset = combine today (time_hour 21),
          next_1am = combine today (time_hour 1) + timedelta_days 1\<rparr>)"

subsection \<open>retry\<close>

text \<open>
  \<^verbatim>\<open>for i in range(0, times)\<close>: the loop over the attempt indices that are left
  (\<open>ntimes\<close> stands for the parameter \<^verbatim>\<open>times\<close>). A
  call of \<open>f\<close> that returns ends the loop; one that raises is logged and followed by a
  sleep, inside the handler, so an exception of \<^verbatim>\<open>time.sleep\<close> leaves \<open>retry\<close>.
  The delay is given in microseconds.
\<close>

fun retry_for :: "nat list \<Rightarrow> int \<Rightarrow> ('a, 'z) io \<Rightarrow> 'z world_scheme \<Rightarrow>
    (exn + 'a option) \<times> 'z world_scheme" where
  "retry_for [] delay_s f w = (Inr None, w)"
| "retry_for (i # rest) delay_s f w =
     (case f w of
        (Inr v, w1) \<Rightarrow> (Inr (Some v), w1)
      | (Inl e, w1) \<Rightarrow>
          (case time_sleep delay_s (logging WARNING (FailedCall i delay_s e) w1) of
             (Inl e', w2) \<Rightarrow> (Inl e', w2)
           | (Inr u, w2) \<Rightarrow> retry_for rest delay_s f w2))"

definition retry :: "int \<Rightarrow> int \<Rightarrow> ('a, 'z) io \<Rightarrow> 'z world_scheme \<Rightarrow>
    (exn + 'a option) \<times> 'z world_scheme" where
  "retry ntimes delay_s f w = retry_for [0..<nat ntimes] delay_s f w"

subsection \<open>sleep\_until and set\_service\_state\<close>

definition sleep_until :: "datetime \<Rightarrow> (unit, 'z) io" where
  "sleep_until t w =
     (let delta = t - now w
      in time_sleep delta (logging INFO (SleepingUntil t) w))"

text \<open>\<^verbatim>\<open>subprocess.run\<close> is taken to start the command and to return its exit code.\<close>

definition set_service_state :: "bool \<Rightarrow> 'z world_scheme \<Rightarrow> 'z world_scheme" where
  "set_service_state start w =
     (let w1 = logging INFO (Running start) w;
          returncode = exit_codes w1 (runs w1);
          w2 = w1\<lparr>runs := Suc (runs w1), trace := trace w1 @ [Systemctl start]\<rparr>
      in logging (if returncode = 0 then INFO else ERROR) (ExitedWith returncode) w2)"

subsection \<open>main\<close>

text \<open>The body of \<^verbatim>\<open>while True\<close> in three parts. First the window is obtained
  (lines 138 to 142).\<close>

definition main_fetch :: "location \<Rightarrow> (timeinfo, 'z) io" where
  "main_fetch loc w =
     (case retry 5 (120 * SECOND) (get_from_web loc) w of
        (Inl e, w1) \<Rightarrow> (Inl e, w1)
      | (Inr sun_info, w1) \<Rightarrow>
          (let w2 = logging INFO (SunInfo sun_info) w1
           in case sun_info of
                None \<Rightarrow>
                  (let d = default_TimeInfo w2
                   in (Inr d, logging WARNING (UsingDefault d) w2))
              | Some s \<Rightarrow> (Inr s, w2)))"

text \<open>Then its ordering is checked (lines 144 to 147).\<close>

definition main_check :: "timeinfo \<Rightarrow> 'z world_scheme \<Rightarrow> 'z world_scheme" where
  "main_check sun_info w =
     (if \<not> (sunrise sun_info < sunset sun_info \<and> sunset sun_info < next_1am sun_info)
      then logging ERROR (UnexpectedOrdering sun_info) w
      else w)"

text \<open>Then the three instants are walked through (lines 149 to 159).\<close>

definition main_schedule :: "timeinfo \<Rightarrow> (unit, 'z) io" where
  "main_schedule sun_info w =
     (case (if now w < sunrise sun_info
            then sleep_until (sunrise sun_info) (set_service_state False w)
            else (Inr (), w)) of
        (Inl e, w1) \<Rightarrow> (Inl e, w1)
      | (Inr u1, w1) \<Rightarrow>
          (case (if now w1 < sunset sun_info
                 then sleep_until (sunset sun_info) (set_service_state True w1)
                 else (Inr (), w1)) of
             (Inl e, w2) \<Rightarrow> (Inl e, w2)
           | (Inr u2, w2) \<Rightarrow>
               (if now w2 < next_1am sun_info
                then sleep_until (next_1am sun_info) (set_service_state False w2)
                else (Inr (), w2))))"

definition main_iteration :: "location \<Rightarrow> (unit, 'z) io" where
  "main_iteration loc w =
     (case main_fetch loc w of
        (Inl e, w1) \<Rightarrow> (Inl e, w1)
      | (Inr sun_info, w1) \<Rightarrow> main_schedule sun_info (main_check sun_info w1))"

text \<open>
  \<^verbatim>\<open>while True\<close> never returns: \<open>main_loop n\<close> runs \<open>n\<close> iterations and gives \<open>None\<close>
  with the world reached when none of them raised, and the exception that ended the
  program otherwise.
\<close>

fun main_loop :: "nat \<Rightarrow> location \<Rightarrow> 'z world_scheme \<Rightarrow> exn option \<times> 'z world_scheme" where
  "main_loop 0 loc w = (None, w)"
| "main_loop (Suc n) loc w =
     (case main_iteration loc w of
        (Inl e, w1) \<Rightarrow> (Some e, w1)
      | (Inr u, w1) \<Rightarrow> main_loop n loc w1)"

section \<open>Observations and specification-side definitions\<close>

text \<open>The events a run has added to the trace, the \<^verbatim>\<open>systemctl\<close> commands among a
  list of events (\<open>True\<close> for start, \<open>False\<close> for stop), the lengths slept, and the
  events that are GET requests.\<close>

definition new_events :: "'z world_scheme \<Rightarrow> 'y world_scheme \<Rightarrow> event list" where
  "new_events w w' = drop (length (trace w)) (trace w')"

fun commands :: "event list \<Rightarrow> bool list" where
  "commands [] = []"
| "commands (Systemctl start # es) = start # commands es"
| "commands (e # es) = commands es"

fun sleeps :: "event list \<Rightarrow> int list" where
  "sleeps [] = []"
| "sleeps (Sleep d # es) = d # sleeps es"
| "sleeps (e # es) = sleeps es"

fun is_get :: "event \<Rightarrow> bool" where
  "is_get (Get loc d) = True"
| "is_get e = False"

text \<open>
  One step of the day cycle as the specification words it: the step is skipped entirely
  when the current time has passed the instant (the instant is not in the future);
  otherwise the service command is issued, its exit code is logged, and the scheduler
  sleeps for the time that is left, after which the clock stands at the instant.
\<close>

definition spec_step :: "datetime \<Rightarrow> bool \<Rightarrow> 'z world_scheme \<Rightarrow> 'z world_scheme" where
  "spec_step instant start w =
     (if instant \<le> now w then w
      else (let returncode = exit_codes w (runs w)
            in w\<lparr>clock := instant - utc_offset w,
                 runs := Suc (runs w),
                 trace := trace w @
                   [Log INFO (Running start), Systemctl start,
                    Log (if returncode = 0 then INFO else ERROR) (ExitedWith returncode),
                    Log INFO (SleepingUntil instant), Sleep (instant - now w)]\<rparr>))"

text \<open>The three steps in the order of the specification: stop until sunrise, start
  until sunset, stop until the next boundary.\<close>

definition spec_schedule :: "timeinfo \<Rightarrow> 'z world_scheme \<Rightarrow> 'z world_scheme" where
  "spec_schedule window w =
     fold (\<lambda>(instant, start). spec_step instant start)
       [(sunrise window, False), (sunset window, True), (next_1am window, False)] w"

text \<open>The events one step adds, and worlds that agree on everything a step reads.\<close>

definition step_events :: "datetime \<Rightarrow> bool \<Rightarrow> 'z world_scheme \<Rightarrow> event list" where
  "step_events t c w = new_events w (spec_step t c w)"

definition same_env :: "'z world_scheme \<Rightarrow> 'z world_scheme \<Rightarrow> bool" where
  "same_env w v \<longleftrightarrow> clock w = clock v \<and> utc_offset w = utc_offset v \<and>
     exit_codes w = exit_codes v \<and> runs w = runs v"

text \<open>A provider answer on which \<open>get_from_web\<close> returns a window (lemma
  \<open>get_from_web_fails\<close> below): status 200 and a body with both values convertible.\<close>

fun usable :: "reply \<Rightarrow> bool" where
  "usable (Response status_code (Results (Some (Number e1)) (Some (Number e2)))) =
     (status_code = 200)"
| "usable r = False"

text \<open>
  An invocation of \<open>f\<close> in the world \<open>w\<close> raises. \<open>failed_round\<close> is what \<open>retry\<close>
  does around an invocation with index \<open>i\<close> that raises, and \<open>attempt_world k\<close> is the
  world in which invocation number \<open>k\<close> (counted from 0) begins when the \<open>k\<close>
  invocations before it have raised.
\<close>

definition fails :: "('a, 'z) io \<Rightarrow> 'z world_scheme \<Rightarrow> bool" where
  "fails f w = isl (fst (f w))"

definition failed_round :: "int \<Rightarrow> ('a, 'z) io \<Rightarrow> nat \<Rightarrow> 'z world_scheme \<Rightarrow> 'z world_scheme" where
  "failed_round delay_s f i w =
     (case f w of
        (Inl e, w1) \<Rightarrow> snd (time_sleep delay_s (logging WARNING (FailedCall i delay_s e) w1))
      | (Inr v, w1) \<Rightarrow> w1)"

definition attempt_world :: "int \<Rightarrow> ('a, 'z) io \<Rightarrow> 'z world_scheme \<Rightarrow> nat \<Rightarrow> 'z world_scheme" where
  "attempt_world delay_s f w k = fold (failed_round delay_s f) [0..<k] w"

text \<open>
  A test double that counts its invocations, as \<^verbatim>\<open>unittest.mock\<close> does: the world is
  extended by a counter that no function of the program can see, and \<open>mock f\<close> behaves
  as \<open>f\<close> and adds one to the counter at every invocation.
\<close>

record mock_world = world +
  call_count :: nat

definition mock :: "('a, 'z mock_world_ext) io \<Rightarrow> ('a, 'z mock_world_ext) io" where
  "mock f w = (case f w of (r, w') \<Rightarrow> (r, w'\<lparr>call_count := Suc (call_count w)\<rparr>))"

section \<open>Example inputs\<close>

text \<open>
  A process just started at the local time \<open>t\<close> in a zone one hour ahead of UTC, with
  the provider \<open>p\<close> and a \<^verbatim>\<open>systemctl\<close> that always succeeds; the same with a call
  counter. Day 19844 is 2024-05-01, day 19843 is 2024-04-30.
\<close>

definition started_at :: "datetime \<Rightarrow> (nat \<Rightarrow> reply) \<Rightarrow> world" where
  "started_at t p =
     \<lparr>clock = t - HOUR, utc_offset = HOUR, provider = p, requests = 0,
      exit_codes = (\<lambda>k. 0), runs = 0, trace = []\<rparr>"

definition mock_started_at :: "datetime \<Rightarrow> (nat \<Rightarrow> reply) \<Rightarrow> mock_world" where
  "mock_started_at t p =
     \<lparr>clock = t - HOUR, utc_offset = HOUR, provider = p, requests = 0,
      exit_codes = (\<lambda>k. 0), runs = 0, trace = [], call_count = 0\<rparr>"

definition london :: location where
  "london = \<lparr>lat = 51.5, long = - 0.12\<rparr>"

definition MINUTE :: int where
  "MINUTE = 60 * SECOND"

text \<open>An answer whose timestamps lie on 2024-04-30 (sunrise 05:12, sunset 20:30 local
  time), and the window built from it on 2024-05-01.\<close>

definition april_sunrise :: int where
  "april_sunrise = combine 19843 (5 * HOUR + 12 * MINUTE) - HOUR"

definition april_sunset :: int where
  "april_sunset = combine 19843 (20 * HOUR + 30 * MINUTE) - HOUR"

definition april_reply :: reply where
  "april_reply = Response 200 (Results (Some (Number april_sunrise)) (Some (Number april_sunset)))"

definition may_window :: timeinfo where
  "may_window =
     \<lparr>sunrise = combine 19844 (5 * HOUR + 12 * MINUTE),
      sunset = combine 19844 (20 * HOUR + 30 * MINUTE),
      next_1am = combine 19845 (time_hour 1)\<rparr>"

text \<open>An answer with the two values the wrong way round, and the window built from it.\<close>

definition swapped_reply :: reply where
  "swapped_reply = Response 200 (Results (Some (Number april_sunset)) (Some (Number april_sunrise)))"

definition swapped_window :: timeinfo where
  "swapped_window =
     \<lparr>sunrise = combine 19844 (20 * HOUR + 30 * MINUTE),
      sunset = combine 19844 (5 * HOUR + 12 * MINUTE),
      next_1am = combine 19845 (time_hour 1)\<rparr>"

text \<open>A provider that fails in a different way at each of the first requests, and one
  that fails twice before it answers.\<close>

definition failing_provider :: "nat \<Rightarrow> reply" where
  "failing_provider k =
     (if k = 0 then NoResponse
      else if k = 1 then Response 503 NotJson
      else if k = 2 then Response 200 NotJson
      else if k = 3 then Response 200 NoResults
      else Response 200 (Results (Some Unconvertible) None))"

definition flaky_provider :: "nat \<Rightarrow> reply" where
  "flaky_provider k = (if k < 2 then NoResponse else april_reply)"

definition steady_provider :: "nat \<Rightarrow> reply" where
  "steady_provider k = april_reply"

definition swapped_provider :: "nat \<Rightarrow> reply" where
  "swapped_provider k = swapped_reply"

text \<open>A window that lies in the past on 2024-05-02.\<close>

definition noon_next_day :: datetime where
  "noon_next_day = combine 19845 (time_hour 12)"

section \<open>Facts about time values\<close>

lemma DAY_pos: "0 < DAY"
  by (simp add: DAY_def HOUR_def SECOND_def)

lemma time_of_range: "0 \<le> time_of t \<and> time_of t < DAY"
  using DAY_pos by (simp add: time_of_def)

lemma date_of_combine: "0 \<le> tm \<Longrightarrow> tm < DAY \<Longrightarrow> date_of (combine d tm) = d"
  using DAY_pos by (simp add: date_of_def combine_def)

lemma time_of_combine: "0 \<le> tm \<Longrightarrow> tm < DAY \<Longrightarrow> time_of (combine d tm) = tm"
  using DAY_pos by (simp add: time_of_def combine_def)

lemma date_of_replace_date: "date_of (replace_date t d) = d"
  by (simp add: replace_date_def date_of_combine time_of_range)

lemma time_of_replace_date: "time_of (replace_date t d) = time_of t"
  by (simp add: replace_date_def time_of_combine time_of_range)

lemma combine_add_days: "combine d tm + timedelta_days n = combine (d + n) tm"
  by (simp add: combine_def timedelta_days_def algebra_simps)

lemma time_hour_range: "0 \<le> h \<Longrightarrow> h < 24 \<Longrightarrow> 0 \<le> time_hour h \<and> time_hour h < DAY"
  by (simp add: time_hour_def DAY_def HOUR_def SECOND_def)

lemma now_logging: "now (logging l m w) = now w"
  by (simp add: now_def logging_def)

lemma now_started_at: "now (started_at t p) = t"
  by (simp add: now_def started_at_def fromtimestamp_def)

lemma default_TimeInfo_logging: "default_TimeInfo (logging l m w) = default_TimeInfo w"
  by (simp add: default_TimeInfo_def now_logging)

section \<open>The fallback window\<close>

text \<open>
  Claim C4. \<open>default_TimeInfo\<close> is a total function that reads nothing but the clock
  and returns a window whose sunrise is 06:00 of today, whose sunset is 21:00 of today
  and whose \<open>next_1am\<close> is 01:00 of tomorrow; the window is ordered, and two calls on
  the same local date return the same window.
\<close>

theorem default_TimeInfo_window:
  "date_of (sunrise (default_TimeInfo w)) = date_of (now w) \<and>
   time_of (sunrise (default_TimeInfo w)) = time_hour 6 \<and>
   date_of (sunset (default_TimeInfo w)) = date_of (now w) \<and>
   time_of (sunset (default_TimeInfo w)) = time_hour 21 \<and>
   date_of (next_1am (default_TimeInfo w)) = date_of (now w) + 1 \<and>
   time_of (next_1am (default_TimeInfo w)) = time_hour 1 \<and>
   sunrise (default_TimeInfo w) < sunset (default_TimeInfo w) \<and>
   sunset (default_TimeInfo w) < next_1am (default_TimeInfo w) \<and>
   (date_of (now v) = date_of (now w) \<longrightarrow> default_TimeInfo v = default_TimeInfo w)"
proof -
  have fields: "default_TimeInfo w =
      \<lparr>sunrise = combine (date_of (now w)) (time_hour 6),
       sunset = combine (date_of (now w)) (time_hour 21),
       next_1am = combine (date_of (now w) + 1) (time_hour 1)\<rparr>"
    by (simp add: default_TimeInfo_def Let_def combine_add_days)
  have order: "combine d (time_hour 6) < combine d (time_hour 21) \<and>
      combine d (time_hour 21) < combine (d + 1) (time_hour 1)" for d
    by (simp add: combine_def time_hour_def DAY_def HOUR_def SECOND_def)
  have same: "date_of (now v) = date_of (now w) \<longrightarrow> default_TimeInfo v = default_TimeInfo w"
    by (simp add: default_TimeInfo_def)
  show ?thesis
    using order [of "date_of (now w)"] same
    by (simp add: fields date_of_combine time_of_combine time_hour_range)
qed

theorem default_TimeInfo_window_witness:
  "date_of (now (started_at (combine 19844 (time_hour 23)) failing_provider)) =
     date_of (now (started_at (combine 19844 (time_hour 9)) steady_provider)) \<and>
   default_TimeInfo (started_at (combine 19844 (time_hour 23)) failing_provider) =
     default_TimeInfo (started_at (combine 19844 (time_hour 9)) steady_provider) \<and>
   date_of (sunrise (default_TimeInfo (started_at (combine 19844 (time_hour 9)) steady_provider))) = 19844"
proof -
  have d: "date_of (now (started_at (combine 19844 (time_hour 23)) failing_provider)) =
     date_of (now (started_at (combine 19844 (time_hour 9)) steady_provider))"
    by (simp add: now_started_at date_of_combine time_hour_range)
  show ?thesis
    using d default_TimeInfo_window
      [of "started_at (combine 19844 (time_hour 9)) steady_provider"
          "started_at (combine 19844 (time_hour 23)) failing_provider"]
    by (simp add: now_started_at date_of_combine time_hour_range)
qed

section \<open>The fetch\<close>

lemma usable_iff:
  "usable r \<longleftrightarrow> (\<exists>e1 e2. r = Response 200 (Results (Some (Number e1)) (Some (Number e2))))"
  by (induction r rule: usable.induct) auto

lemma sleeps_append: "sleeps (es @ fs) = sleeps es @ sleeps fs"
  by (induction es rule: sleeps.induct) auto

lemma get_from_web_success:
  assumes "get_from_web loc w = (Inr ti, w')"
  shows "\<exists>e1 e2.
     provider w (requests w) = Response 200 (Results (Some (Number e1)) (Some (Number e2))) \<and>
     ti = \<lparr>sunrise = replace_date (fromtimestamp (utc_offset w) e1) (date_of (now w)),
           sunset = replace_date (fromtimestamp (utc_offset w) e2) (date_of (now w)),
           next_1am = combine (date_of (now w)) (time_hour 1) + timedelta_days 1\<rparr>"
  using assms
  by (auto simp: get_from_web_def logging_def Let_def
      split: reply.splits body.splits option.splits jvalue.splits if_splits)

lemma get_from_web_usable:
  assumes "provider w (requests w) = Response 200 (Results (Some (Number e1)) (Some (Number e2)))"
  shows "fst (get_from_web loc w) =
     Inr \<lparr>sunrise = replace_date (fromtimestamp (utc_offset w) e1) (date_of (now w)),
          sunset = replace_date (fromtimestamp (utc_offset w) e2) (date_of (now w)),
          next_1am = combine (date_of (now w)) (time_hour 1) + timedelta_days 1\<rparr>"
  using assms by (simp add: get_from_web_def logging_def Let_def)

lemma get_from_web_fails: "fails (get_from_web loc) w \<longleftrightarrow> \<not> usable (provider w (requests w))"
  by (auto simp: fails_def usable_iff get_from_web_def logging_def Let_def
      split: reply.splits body.splits option.splits jvalue.splits if_splits)

lemma get_from_web_frame:
  "clock (snd (get_from_web loc w)) = clock w \<and>
   utc_offset (snd (get_from_web loc w)) = utc_offset w \<and>
   provider (snd (get_from_web loc w)) = provider w \<and>
   requests (snd (get_from_web loc w)) = Suc (requests w) \<and>
   sleeps (trace (snd (get_from_web loc w))) = sleeps (trace w)"
  by (simp add: get_from_web_def logging_def Let_def sleeps_append
      split: reply.splits body.splits option.splits jvalue.splits)

lemma april_sunrise_local:
  "date_of (fromtimestamp HOUR april_sunrise) = 19843 \<and>
   time_of (fromtimestamp HOUR april_sunrise) = 5 * HOUR + 12 * MINUTE"
  by (simp add: april_sunrise_def fromtimestamp_def date_of_def time_of_def combine_def
      DAY_def HOUR_def MINUTE_def SECOND_def)

lemma april_sunset_local:
  "date_of (fromtimestamp HOUR april_sunset) = 19843 \<and>
   time_of (fromtimestamp HOUR april_sunset) = 20 * HOUR + 30 * MINUTE"
  by (simp add: april_sunset_def fromtimestamp_def date_of_def time_of_def combine_def
      DAY_def HOUR_def MINUTE_def SECOND_def)

lemma may_window_fields:
  "date_of (sunrise may_window) = 19844 \<and>
   time_of (sunrise may_window) = 5 * HOUR + 12 * MINUTE \<and>
   date_of (sunset may_window) = 19844 \<and>
   time_of (sunset may_window) = 20 * HOUR + 30 * MINUTE"
  by (simp add: may_window_def date_of_def time_of_def combine_def
      DAY_def HOUR_def MINUTE_def SECOND_def)

lemma get_from_web_april:
  assumes "0 \<le> tm" and "tm < DAY"
  shows "fst (get_from_web loc (started_at (combine 19844 tm) steady_provider)) = Inr may_window"
proof -
  let ?w = "started_at (combine 19844 tm) steady_provider"
  have p: "provider ?w (requests ?w) =
      Response 200 (Results (Some (Number april_sunrise)) (Some (Number april_sunset)))"
    by (simp add: started_at_def steady_provider_def april_reply_def)
  have o: "utc_offset ?w = HOUR" by (simp add: started_at_def)
  have d: "date_of (now ?w) = 19844"
    using assms by (simp add: now_started_at date_of_combine)
  show ?thesis
    by (simp add: get_from_web_usable [OF p] o d replace_date_def april_sunrise_local
        april_sunset_local may_window_def combine_add_days)
qed

text \<open>
  Claim C5. Whenever the fetch succeeds, the provider has answered with two timestamps,
  and the sunrise and the sunset of the window have the local date of the request (today)
  and the time of day of the timestamps: the date the provider returned is discarded. A
  sunrise that decodes to the day before the request therefore ends up on the day of
  the request.
\<close>

theorem get_from_web_substitutes_today:
  assumes "get_from_web loc w = (Inr ti, w')"
  shows "\<exists>e1 e2.
     provider w (requests w) = Response 200 (Results (Some (Number e1)) (Some (Number e2))) \<and>
     date_of (sunrise ti) = date_of (now w) \<and>
     time_of (sunrise ti) = time_of (fromtimestamp (utc_offset w) e1) \<and>
     date_of (sunset ti) = date_of (now w) \<and>
     time_of (sunset ti) = time_of (fromtimestamp (utc_offset w) e2)"
  using get_from_web_success [OF assms]
  by (auto simp: date_of_replace_date time_of_replace_date)

theorem get_from_web_substitutes_today_witness:
  "fst (get_from_web london (started_at (combine 19844 (time_hour 12)) steady_provider)) =
     Inr may_window \<and>
   date_of (fromtimestamp HOUR april_sunrise) = 19843 \<and>
   date_of (now (started_at (combine 19844 (time_hour 12)) steady_provider)) = 19844 \<and>
   date_of (sunrise may_window) = 19844 \<and>
   time_of (sunrise may_window) = time_of (fromtimestamp HOUR april_sunrise)"
proof -
  let ?w = "started_at (combine 19844 (time_hour 12)) steady_provider"
  have g: "fst (get_from_web london ?w) = Inr may_window"
    by (rule get_from_web_april) (simp_all add: time_hour_range)
  then have "get_from_web london ?w = (Inr may_window, snd (get_from_web london ?w))"
    by (simp add: prod_eq_iff)
  from get_from_web_substitutes_today [OF this]
  have "date_of (sunrise may_window) = date_of (now ?w)" by blast
  moreover have "date_of (now ?w) = 19844"
    by (simp add: now_started_at date_of_combine time_hour_range)
  moreover have "time_of (sunrise may_window) = time_of (fromtimestamp HOUR april_sunrise)"
    by (simp add: may_window_fields april_sunrise_local)
  ultimately show ?thesis
    using g by (simp add: april_sunrise_local)
qed

lemma get_from_web_swapped:
  assumes "0 \<le> tm" and "tm < DAY"
  shows "fst (get_from_web loc (started_at (combine 19844 tm) swapped_provider)) =
     Inr swapped_window"
proof -
  let ?w = "started_at (combine 19844 tm) swapped_provider"
  have p: "provider ?w (requests ?w) =
      Response 200 (Results (Some (Number april_sunset)) (Some (Number april_sunrise)))"
    by (simp add: started_at_def swapped_provider_def swapped_reply_def)
  have o: "utc_offset ?w = HOUR" by (simp add: started_at_def)
  have d: "date_of (now ?w) = 19844"
    using assms by (simp add: now_started_at date_of_combine)
  show ?thesis
    by (simp add: get_from_web_usable [OF p] o d replace_date_def april_sunrise_local
        april_sunset_local swapped_window_def combine_add_days)
qed

text \<open>
  Claim C9. The \<open>next_1am\<close> of a fetched window does not depend on what the provider
  answered: two successful fetches made at the same system time (with any answers, and
  any locations) give the same \<open>next_1am\<close>, which is 01:00 local time of the day after
  the day of the fetch.
\<close>

theorem next_1am_independent_of_response:
  assumes "clock w1 = clock w2" and "utc_offset w1 = utc_offset w2"
    and "get_from_web loc1 w1 = (Inr t1, w1')" and "get_from_web loc2 w2 = (Inr t2, w2')"
  shows "next_1am t1 = next_1am t2 \<and>
     date_of (next_1am t1) = date_of (now w1) + 1 \<and>
     time_of (next_1am t1) = time_hour 1"
proof -
  have n: "now w1 = now w2"
    using assms(1,2) by (simp add: now_def)
  from get_from_web_success [OF assms(3)]
  have 1: "next_1am t1 = combine (date_of (now w1) + 1) (time_hour 1)"
    by (auto simp: combine_add_days)
  from get_from_web_success [OF assms(4)]
  have 2: "next_1am t2 = combine (date_of (now w2) + 1) (time_hour 1)"
    by (auto simp: combine_add_days)
  show ?thesis
    by (simp add: 1 2 n date_of_combine time_of_combine time_hour_range)
qed

theorem next_1am_independent_of_response_witness:
  "clock (started_at (combine 19844 (time_hour 12)) steady_provider) =
     clock (started_at (combine 19844 (time_hour 12)) swapped_provider) \<and>
   fst (get_from_web london (started_at (combine 19844 (time_hour 12)) steady_provider)) =
     Inr may_window \<and>
   fst (get_from_web london (started_at (combine 19844 (time_hour 12)) swapped_provider)) =
     Inr swapped_window \<and>
   sunrise may_window \<noteq> sunrise swapped_window \<and>
   next_1am may_window = next_1am swapped_window \<and>
   date_of (next_1am may_window) = 19845 \<and>
   time_of (next_1am may_window) = time_hour 1"
proof -
  let ?w1 = "started_at (combine 19844 (time_hour 12)) steady_provider"
  let ?w2 = "started_at (combine 19844 (time_hour 12)) swapped_provider"
  have c: "clock ?w1 = clock ?w2" and o: "utc_offset ?w1 = utc_offset ?w2"
    by (simp_all add: started_at_def)
  have g1: "fst (get_from_web london ?w1) = Inr may_window"
    by (rule get_from_web_april) (simp_all add: time_hour_range)
  have g2: "fst (get_from_web london ?w2) = Inr swapped_window"
    by (rule get_from_web_swapped) (simp_all add: time_hour_range)
  have e1: "get_from_web london ?w1 = (Inr may_window, snd (get_from_web london ?w1))"
    using g1 by (simp add: prod_eq_iff)
  have e2: "get_from_web london ?w2 = (Inr swapped_window, snd (get_from_web london ?w2))"
    using g2 by (simp add: prod_eq_iff)
  have d: "date_of (now ?w1) = 19844"
    by (simp add: now_started_at date_of_combine time_hour_range)
  have ne: "sunrise may_window \<noteq> sunrise swapped_window"
    by (simp add: may_window_def swapped_window_def combine_def HOUR_def MINUTE_def SECOND_def)
  have r: "next_1am may_window = next_1am swapped_window"
    "date_of (next_1am may_window) = date_of (now ?w1) + 1"
    "time_of (next_1am may_window) = time_hour 1"
    using next_1am_independent_of_response [OF c o e1 e2] by blast+
  have "date_of (next_1am may_window) = 19845"
    using r(2) d by simp
  with r(1,3) c g1 g2 ne show ?thesis by blast
qed

section \<open>The day cycle\<close>

lemma guarded_step:
  "(if now w < t then sleep_until t (set_service_state start w) else (Inr (), w)) =
   (Inr (), spec_step t start w)"
  by (simp add: spec_step_def sleep_until_def set_service_state_def time_sleep_def
      logging_def now_def fromtimestamp_def Let_def)

lemma main_schedule_eq:
  "main_schedule s w =
     (Inr (), spec_step (next_1am s) False
        (spec_step (sunset s) True (spec_step (sunrise s) False w)))"
  by (simp only: main_schedule_def guarded_step prod.case sum.case)

lemma spec_step_past: "t \<le> now w \<Longrightarrow> spec_step t start w = w"
  by (simp add: spec_step_def)

lemma spec_step_future:
  "now w < t \<Longrightarrow> now (spec_step t start w) = t \<and>
     commands (new_events w (spec_step t start w)) = [start] \<and>
     sleeps (new_events w (spec_step t start w)) = [t - now w] \<and>
     filter is_get (new_events w (spec_step t start w)) = []"
  by (simp add: spec_step_def new_events_def now_def fromtimestamp_def Let_def)

text \<open>
  Claim C1. One walk through the window never raises and is the three steps of the
  specification in the order sunrise, sunset, \<open>next_1am\<close>: each step is skipped with
  no command and no sleep when its instant is not in the future at the moment the step
  is reached, and otherwise issues its command (stop, start, stop), then sleeps until
  the instant, so that the clock stands at the instant when the next step is reached.
\<close>

theorem main_schedule_walks_the_window:
  "main_schedule window w = (Inr (), spec_schedule window w)"
  by (simp add: main_schedule_eq spec_schedule_def)

text \<open>What a step leaves behind, for use below.\<close>

lemma trace_spec_step: "trace (spec_step t c w) = trace w @ step_events t c w"
  by (simp add: step_events_def new_events_def spec_step_def Let_def)

lemma spec_step_same_env:
  assumes "same_env w v"
  shows "same_env (spec_step t c w) (spec_step t c v) \<and> step_events t c w = step_events t c v"
  using assms
  by (simp add: same_env_def spec_step_def step_events_def new_events_def now_def Let_def)

lemma new_events_append: "trace w' = trace w @ es \<Longrightarrow> new_events w w' = es"
  by (simp add: new_events_def)

lemma schedule_same_env:
  assumes "same_env w v"
  shows "clock (snd (main_schedule s w)) = clock (snd (main_schedule s v)) \<and>
         new_events w (snd (main_schedule s w)) = new_events v (snd (main_schedule s v))"
proof -
  let ?w1 = "spec_step (sunrise s) False w" and ?v1 = "spec_step (sunrise s) False v"
  let ?w2 = "spec_step (sunset s) True ?w1" and ?v2 = "spec_step (sunset s) True ?v1"
  let ?w3 = "spec_step (next_1am s) False ?w2" and ?v3 = "spec_step (next_1am s) False ?v2"
  have e1: "same_env ?w1 ?v1" and s1: "step_events (sunrise s) False w = step_events (sunrise s) False v"
    using spec_step_same_env [OF assms] by simp_all
  have e2: "same_env ?w2 ?v2" and s2: "step_events (sunset s) True ?w1 = step_events (sunset s) True ?v1"
    using spec_step_same_env [OF e1] by simp_all
  have e3: "same_env ?w3 ?v3" and s3: "step_events (next_1am s) False ?w2 = step_events (next_1am s) False ?v2"
    using spec_step_same_env [OF e2] by simp_all
  have tw: "trace ?w3 = trace w @ (step_events (sunrise s) False w @
      step_events (sunset s) True ?w1 @ step_events (next_1am s) False ?w2)"
    by (simp only: trace_spec_step append_assoc)
  have tv: "trace ?v3 = trace v @ (step_events (sunrise s) False v @
      step_events (sunset s) True ?v1 @ step_events (next_1am s) False ?v2)"
    by (simp only: trace_spec_step append_assoc)
  have "new_events w ?w3 = new_events v ?v3"
    by (simp only: new_events_append [OF tw] new_events_append [OF tv] s1 s2 s3)
  moreover have "clock ?w3 = clock ?v3"
    using e3 by (simp add: same_env_def)
  ultimately show ?thesis
    by (simp only: main_schedule_eq snd_conv simp_thms)
qed

lemma same_env_main_check: "same_env (main_check s w) w"
  by (simp add: same_env_def main_check_def logging_def)

lemma now_main_check: "now (main_check s w) = now w"
  by (simp add: main_check_def now_logging)

lemma main_iteration_after_fetch:
  "main_fetch loc w0 = (Inr s, w) \<Longrightarrow> main_iteration loc w0 = main_schedule s (main_check s w)"
  by (simp add: main_iteration_def)


lemma commands_append: "commands (es @ fs) = commands es @ commands fs"
  by (induction es rule: commands.induct) auto

lemma main_fetch_usable:
  assumes "provider w (requests w) = Response 200 (Results (Some (Number e1)) (Some (Number e2)))"
  shows "fst (main_fetch loc w) = fst (get_from_web loc w) \<and>
     now (snd (main_fetch loc w)) = now w \<and>
     commands (new_events w (snd (main_fetch loc w))) = []"
proof -
  obtain ti w1 where g: "get_from_web loc w = (Inr ti, w1)"
    using get_from_web_usable [OF assms, of loc] by (cases "get_from_web loc w") auto
  have u: "[0..<5] = (0::nat) # [1..<5]"
    by (simp add: upt_conv_Cons)
  have m: "main_fetch loc w = (Inr ti, logging INFO (SunInfo (Some ti)) w1)"
    by (simp add: main_fetch_def retry_def u g)
  have w1: "w1 = snd (get_from_web loc w)"
    using g by simp
  have t: "trace w1 = trace w @ [Log INFO (Getting loc (date_of (now w))), Get loc (date_of (now w))]"
    unfolding w1 using assms by (simp add: get_from_web_def logging_def Let_def)
  have n: "now w1 = now w"
    unfolding w1 by (simp add: now_def get_from_web_frame)
  have "fst (main_fetch loc w) = fst (get_from_web loc w)"
    by (simp add: m g)
  moreover have "now (snd (main_fetch loc w)) = now w"
    by (simp add: m now_logging n)
  moreover have "commands (new_events w (snd (main_fetch loc w))) = []"
    by (simp add: m new_events_def logging_def t)
  ultimately show ?thesis
    by blast
qed

lemma main_fetch_april:
  assumes "0 \<le> tm" and "tm < DAY"
  shows "fst (main_fetch loc (started_at (combine 19844 tm) steady_provider)) = Inr may_window \<and>
     now (snd (main_fetch loc (started_at (combine 19844 tm) steady_provider))) = combine 19844 tm \<and>
     commands (trace (snd (main_fetch loc (started_at (combine 19844 tm) steady_provider)))) = []"
proof -
  let ?w = "started_at (combine 19844 tm) steady_provider"
  have p: "provider ?w (requests ?w) =
      Response 200 (Results (Some (Number april_sunrise)) (Some (Number april_sunset)))"
    by (simp add: started_at_def steady_provider_def april_reply_def)
  have "new_events ?w (snd (main_fetch loc ?w)) = trace (snd (main_fetch loc ?w))"
    by (simp add: new_events_def started_at_def)
  then show ?thesis
    using main_fetch_usable [OF p, of loc] get_from_web_april [OF assms, of loc]
    by (simp add: now_started_at)
qed

lemma main_fetch_swapped:
  assumes "0 \<le> tm" and "tm < DAY"
  shows "fst (main_fetch loc (started_at (combine 19844 tm) swapped_provider)) = Inr swapped_window"
proof -
  let ?w = "started_at (combine 19844 tm) swapped_provider"
  have p: "provider ?w (requests ?w) =
      Response 200 (Results (Some (Number april_sunset)) (Some (Number april_sunrise)))"
    by (simp add: started_at_def swapped_provider_def swapped_reply_def)
  show ?thesis
    using main_fetch_usable [OF p, of loc] get_from_web_swapped [OF assms, of loc] by simp
qed

lemma may_window_ordered:
  "sunrise may_window < sunset may_window \<and> sunset may_window < next_1am may_window"
  by (simp add: may_window_def combine_def time_hour_def DAY_def HOUR_def MINUTE_def SECOND_def)

text \<open>
  Claim C6. The ordering check does nothing but append one ERROR line to the log when
  the window is not ordered. Whatever the window, the walk that follows does not raise
  and is the walk that would have been made without the check: the same events in the
  same order (so the same commands and sleeps) and the same clock at its end, all of them
  computed from the window as it was given; and the iteration goes on with that window.
\<close>

theorem ordering_check_only_logs:
  "main_check s w =
     (if sunrise s < sunset s \<and> sunset s < next_1am s then w
      else logging ERROR (UnexpectedOrdering s) w) \<and>
   fst (main_schedule s (main_check s w)) = Inr () \<and>
   clock (snd (main_schedule s (main_check s w))) = clock (snd (main_schedule s w)) \<and>
   new_events (main_check s w) (snd (main_schedule s (main_check s w))) =
     new_events w (snd (main_schedule s w)) \<and>
   (main_fetch loc w0 = (Inr s, w) \<longrightarrow>
      main_iteration loc w0 = main_schedule s (main_check s w))"
proof -
  have "main_check s w =
     (if sunrise s < sunset s \<and> sunset s < next_1am s then w
      else logging ERROR (UnexpectedOrdering s) w)"
    by (simp add: main_check_def)
  moreover have "fst (main_schedule s (main_check s w)) = Inr ()"
    by (simp only: main_schedule_eq fst_conv)
  moreover have "main_fetch loc w0 = (Inr s, w) \<longrightarrow>
      main_iteration loc w0 = main_schedule s (main_check s w)"
    by (simp add: main_iteration_after_fetch)
  ultimately show ?thesis
    using schedule_same_env [OF same_env_main_check, of s s w] by blast
qed

theorem ordering_check_only_logs_witness:
  "fst (main_fetch london (started_at (combine 19844 (time_hour 12)) swapped_provider)) =
     Inr swapped_window \<and>
   sunset swapped_window < sunrise swapped_window \<and>
   main_iteration london (started_at (combine 19844 (time_hour 12)) swapped_provider) =
     main_schedule swapped_window (main_check swapped_window
       (snd (main_fetch london (started_at (combine 19844 (time_hour 12)) swapped_provider)))) \<and>
   fst (main_iteration london (started_at (combine 19844 (time_hour 12)) swapped_provider)) =
     Inr ()"
proof -
  let ?x = "started_at (combine 19844 (time_hour 12)) swapped_provider"
  let ?w = "snd (main_fetch london ?x)"
  have f: "fst (main_fetch london ?x) = Inr swapped_window"
    by (rule main_fetch_swapped) (simp_all add: time_hour_range)
  then have e: "main_fetch london ?x = (Inr swapped_window, ?w)"
    by (simp add: prod_eq_iff)
  have b: "sunset swapped_window < sunrise swapped_window"
    by (simp add: swapped_window_def combine_def HOUR_def MINUTE_def SECOND_def)
  have i: "main_iteration london ?x = main_schedule swapped_window (main_check swapped_window ?w)"
    and r: "fst (main_schedule swapped_window (main_check swapped_window ?w)) = Inr ()"
    using ordering_check_only_logs [of swapped_window ?w london ?x] e by blast+
  show ?thesis
    using f b i r by simp
qed

text \<open>
  Claim C7, as the code has it. In an iteration whose window is ordered and which
  reaches the walk after sunset and before \<open>next_1am\<close> (as at 23:00), the sunrise and
  sunset steps are skipped and the only service command issued is one stop; the
  scheduler then sleeps until \<open>next_1am\<close>, makes no request meanwhile, and the next
  iteration, which begins with the next fetch, starts when the clock stands at
  \<open>next_1am\<close>.
\<close>

theorem evening_iteration_single_stop:
  assumes "sunrise s < sunset s" and "sunset s < next_1am s"
    and "sunset s \<le> now w" and "now w < next_1am s"
  shows "\<exists>w'. main_schedule s (main_check s w) = (Inr (), w') \<and>
     commands (new_events w w') = [False] \<and>
     sleeps (new_events w w') = [next_1am s - now w] \<and>
     filter is_get (new_events w w') = [] \<and>
     now w' = next_1am s \<and>
     (main_fetch loc w0 = (Inr s, w) \<longrightarrow> main_loop (Suc n) loc w0 = main_loop n loc w')"
proof -
  let ?w' = "spec_step (next_1am s) False w"
  have c: "main_check s w = w"
    using assms(1,2) by (simp add: main_check_def)
  have m: "main_schedule s (main_check s w) = (Inr (), ?w')"
    using assms by (simp add: c main_schedule_eq spec_step_past)
  have "main_fetch loc w0 = (Inr s, w) \<longrightarrow> main_loop (Suc n) loc w0 = main_loop n loc ?w'"
    by (simp add: main_iteration_after_fetch m)
  with m spec_step_future [OF assms(4), of False] show ?thesis
    by blast
qed

theorem evening_iteration_single_stop_witness:
  "sunrise may_window < sunset may_window \<and> sunset may_window < next_1am may_window \<and>
   fst (main_fetch london (started_at (combine 19844 (time_hour 23)) steady_provider)) =
     Inr may_window \<and>
   now (snd (main_fetch london (started_at (combine 19844 (time_hour 23)) steady_provider))) =
     combine 19844 (time_hour 23) \<and>
   sunset may_window \<le> combine 19844 (time_hour 23) \<and>
   combine 19844 (time_hour 23) < next_1am may_window \<and>
   (\<exists>w'. main_iteration london (started_at (combine 19844 (time_hour 23)) steady_provider) =
       (Inr (), w') \<and>
     commands (new_events
       (snd (main_fetch london (started_at (combine 19844 (time_hour 23)) steady_provider))) w') =
       [False] \<and>
     now w' = next_1am may_window)"
proof -
  let ?x = "started_at (combine 19844 (time_hour 23)) steady_provider"
  let ?w = "snd (main_fetch london ?x)"
  have f: "fst (main_fetch london ?x) = Inr may_window"
    and n: "now ?w = combine 19844 (time_hour 23)"
    using main_fetch_april [of "time_hour 23" london] by (simp_all add: time_hour_range)
  from f have e: "main_fetch london ?x = (Inr may_window, ?w)"
    by (simp add: prod_eq_iff)
  have o: "sunrise may_window < sunset may_window" "sunset may_window < next_1am may_window"
    using may_window_ordered by simp_all
  have a: "sunset may_window \<le> now ?w" and b: "now ?w < next_1am may_window"
    unfolding n
    by (simp_all add: may_window_def combine_def time_hour_def DAY_def HOUR_def
        MINUTE_def SECOND_def)
  from evening_iteration_single_stop [OF o a b, of london ?x 0]
  obtain w' where w': "main_schedule may_window (main_check may_window ?w) = (Inr (), w')"
    "commands (new_events ?w w') = [False]" "now w' = next_1am may_window"
    by blast
  have "main_iteration london ?x = (Inr (), w')"
    using w'(1) by (simp add: main_iteration_after_fetch [OF e])
  with w'(2,3) f n o a b show ?thesis
    by auto
qed

text \<open>The claim as it was stated fails: on 2024-05-01 at 23:00, with the ordered window
  of that day, the whole iteration issues one stop, not two.\<close>

theorem evening_iteration_counterexample:
  "sunrise may_window < sunset may_window \<and> sunset may_window < next_1am may_window \<and>
   time_of (now (started_at (combine 19844 (time_hour 23)) steady_provider)) = time_hour 23 \<and>
   fst (main_fetch london (started_at (combine 19844 (time_hour 23)) steady_provider)) =
     Inr may_window \<and>
   sunset may_window < now (started_at (combine 19844 (time_hour 23)) steady_provider) \<and>
   now (started_at (combine 19844 (time_hour 23)) steady_provider) < next_1am may_window \<and>
   commands (trace (snd (main_iteration london
     (started_at (combine 19844 (time_hour 23)) steady_provider)))) = [False] \<and>
   commands (trace (snd (main_iteration london
     (started_at (combine 19844 (time_hour 23)) steady_provider)))) \<noteq> [False, False]"
proof -
  let ?x = "started_at (combine 19844 (time_hour 23)) steady_provider"
  let ?w = "snd (main_fetch london ?x)"
  have f: "fst (main_fetch london ?x) = Inr may_window"
    and n: "now ?w = combine 19844 (time_hour 23)"
    and c0: "commands (trace ?w) = []"
    using main_fetch_april [of "time_hour 23" london] by (simp_all add: time_hour_range)
  from f have e: "main_fetch london ?x = (Inr may_window, ?w)"
    by (simp add: prod_eq_iff)
  have t: "time_of (now ?x) = time_hour 23"
    by (simp add: now_started_at time_of_combine time_hour_range)
  have a: "sunset may_window < now ?x" and b: "now ?x < next_1am may_window"
    by (simp_all add: now_started_at may_window_def combine_def time_hour_def DAY_def HOUR_def
        MINUTE_def SECOND_def)
  have c: "main_check may_window ?w = ?w"
    using may_window_ordered by (simp add: main_check_def)
  have p: "sunrise may_window \<le> now ?w" "sunset may_window \<le> now ?w" "now ?w < next_1am may_window"
    using a b may_window_ordered by (simp_all add: n now_started_at)
  let ?w' = "spec_step (next_1am may_window) False ?w"
  have i: "main_iteration london ?x = (Inr (), ?w')"
    using p by (simp add: main_iteration_after_fetch [OF e] c main_schedule_eq spec_step_past)
  have "trace ?w' = trace ?w @ step_events (next_1am may_window) False ?w"
    by (rule trace_spec_step)
  moreover have "commands (step_events (next_1am may_window) False ?w) = [False]"
    using spec_step_future [OF p(3), of False] by (simp add: step_events_def)
  ultimately have "commands (trace ?w') = [False]"
    by (simp add: commands_append c0)
  then show ?thesis
    using may_window_ordered t f a b by (simp add: i)
qed

text \<open>
  Claim C10. When the walk is reached with all three instants no longer in the future,
  it returns without raising and leaves the world as it found it: no command and no
  sleep, the clock unmoved. The ordering check before it adds no command and no sleep
  either, so the rest of the loop is the next iteration, started at once.
\<close>

theorem all_instants_past_no_action:
  assumes "sunrise s \<le> now w" and "sunset s \<le> now w" and "next_1am s \<le> now w"
  shows "main_schedule s w = (Inr (), w) \<and>
     main_schedule s (main_check s w) = (Inr (), main_check s w) \<and>
     clock (main_check s w) = clock w \<and>
     commands (new_events w (main_check s w)) = [] \<and>
     sleeps (new_events w (main_check s w)) = [] \<and>
     (case main_schedule s (main_check s w) of
        (Inl e, w') \<Rightarrow> (Some e, w')
      | (Inr u, w') \<Rightarrow> main_loop n loc w') = main_loop n loc (main_check s w)"
proof -
  have 1: "main_schedule s w = (Inr (), w)"
    using assms by (simp add: main_schedule_eq spec_step_past)
  have 2: "main_schedule s (main_check s w) = (Inr (), main_check s w)"
    using assms by (simp add: main_schedule_eq spec_step_past now_main_check)
  have 3: "clock (main_check s w) = clock w \<and>
     commands (new_events w (main_check s w)) = [] \<and>
     sleeps (new_events w (main_check s w)) = []"
    by (simp add: main_check_def logging_def new_events_def)
  show ?thesis
    using 1 3 by (simp add: 2)
qed

theorem all_instants_past_no_action_witness:
  "sunrise may_window \<le> now (started_at noon_next_day steady_provider) \<and>
   sunset may_window \<le> now (started_at noon_next_day steady_provider) \<and>
   next_1am may_window \<le> now (started_at noon_next_day steady_provider) \<and>
   main_schedule may_window (started_at noon_next_day steady_provider) =
     (Inr (), started_at noon_next_day steady_provider)"
proof -
  let ?w = "started_at noon_next_day steady_provider"
  have a: "sunrise may_window \<le> now ?w" "sunset may_window \<le> now ?w"
    "next_1am may_window \<le> now ?w"
    by (simp_all add: now_started_at noon_next_day_def may_window_def combine_def time_hour_def
        DAY_def HOUR_def MINUTE_def SECOND_def)
  from all_instants_past_no_action [OF a] a show ?thesis
    by blast
qed

end
